theory Spec2Isabelle
  imports Complex_Main "HOL-Library.Multiset"
begin

section \<open>The daily quiz selection of server.js\<close>

text \<open>
  This theory embeds the three pure functions of \<^verbatim>\<open>server.js\<close>:
  \<^verbatim>\<open>seededShuffle\<close>, \<^verbatim>\<open>groupByDifficulty\<close> and \<^verbatim>\<open>buildDailySet\<close>
  (with its local closure \<^verbatim>\<open>pickFromGroup\<close>). The Express handler, the clock and the
  JSON encoding are not modelled.
\<close>

subsection \<open>The random generator of the seedrandom library\<close>

text \<open>
  \<^verbatim>\<open>seedrandom(seed)\<close> is a function of the npm library seedrandom, which is not part of
  the repository. Called with a string it returns a fresh generator \<^verbatim>\<open>rng\<close>; every call
  \<^verbatim>\<open>rng()\<close> returns the next double of a stream fixed by the seed, each in the half-open
  interval from 0 to 1. The library is a parameter of the model: a function from the
  seed string to the stream of values that the generator instance returns, the value of
  the \<open>k\<close>-th call at index \<open>k\<close>. The type \<open>draw\<close> holds the range of one value.

  The source computes \<^verbatim>\<open>Math.floor(rng() * (i + 1))\<close> in double arithmetic; the model
  computes the product in the reals. Both land in \<open>{0..i}\<close>, which is all that the
  theorems below use about a draw.
\<close>

typedef draw = "{x :: real. 0 \<le> x \<and> x < 1}"
  by (rule exI [of _ 0]) simp

setup_lifting type_definition_draw

lift_definition draw_of_ratio :: "nat \<Rightarrow> nat \<Rightarrow> draw"
  is "\<lambda>m n. if m < n then real m / real n else 0"
  by simp

type_synonym generator = "nat \<Rightarrow> draw"

type_synonym seedrandom = "string \<Rightarrow> generator"

definition floor_scaled :: "draw \<Rightarrow> nat \<Rightarrow> nat" where
  \<comment> \<open>\<^verbatim>\<open>Math.floor(u * n)\<close> for a value \<open>u\<close> returned by \<^verbatim>\<open>rng()\<close>\<close>
  "floor_scaled u n = nat \<lfloor>Rep_draw u * real n\<rfloor>"

subsection \<open>seededShuffle\<close>

text \<open>
  \<^verbatim>\<open>
  function seededShuffle(array, seed) {
    const rng = seedrandom(seed);
    const arr = array.slice();
    for (let i = arr.length - 1; i > 0; i--) {
      const j = Math.floor(rng() * (i + 1));
      [arr[i], arr[j]] = [arr[j], arr[i]];
    }
    return arr;
  }
  \<close>
  The loop is a recursion on \<open>i\<close>; \<open>k\<close> counts the calls of \<^verbatim>\<open>rng()\<close> made so far.
  The destructuring assignment reads both cells before it writes either. The loop starts
  at \<^verbatim>\<open>arr.length - 1\<close>, which is \<open>-1\<close> for the empty array, where the condition
  \<^verbatim>\<open>i > 0\<close> fails at once as it does for \<open>0\<close>; the truncated subtraction on \<open>nat\<close>
  gives \<open>0\<close> there.
\<close>

fun shuffle_loop :: "generator \<Rightarrow> nat \<Rightarrow> nat \<Rightarrow> 'a list \<Rightarrow> 'a list" where
  "shuffle_loop rng k 0 arr = arr"
| "shuffle_loop rng k (Suc i') arr =
     (let i = Suc i';
          j = floor_scaled (rng k) (i + 1)
      in shuffle_loop rng (Suc k) i' (arr[i := arr ! j, j := arr ! i]))"

definition seededShuffle :: "seedrandom \<Rightarrow> 'a list \<Rightarrow> string \<Rightarrow> 'a list" where
  "seededShuffle sr array seed =
     (let rng = sr seed;
          arr = array
      in shuffle_loop rng 0 (length arr - 1) arr)"

subsection \<open>Questions, ids and difficulty labels\<close>

text \<open>
  The ids of two questions are compared with \<^verbatim>\<open>===\<close> (line 87). On every JavaScript
  value but one this is an equivalence that relates a value to itself; the exception is
  the number \<^verbatim>\<open>NaN\<close>, for which \<^verbatim>\<open>NaN === NaN\<close> is false. An id is therefore either
  \<open>NaN\<close> or a value \<open>Val v\<close> of a type \<open>'v\<close> on which \<^verbatim>\<open>===\<close> is the equality of HOL
  (strings, and numbers with \<^verbatim>\<open>-0\<close> and \<^verbatim>\<open>0\<close> taken as one value).
\<close>

datatype 'v js_id = NaN | Val 'v

fun strict_eq :: "'v js_id \<Rightarrow> 'v js_id \<Rightarrow> bool" where
  "strict_eq (Val a) (Val b) = (a = b)"
| "strict_eq NaN b = False"
| "strict_eq a NaN = False"

text \<open>
  A question, with the five fields that the handler sends out. The functions below read
  \<^verbatim>\<open>id\<close> and \<^verbatim>\<open>difficulty\<close> only. A difficulty label is a string.
\<close>

record 'v question =
  qid :: "'v js_id"
  qtext :: string
  options :: "(string \<times> string) list"
  correct :: string
  difficulty :: string

subsection \<open>Plain objects as dictionaries\<close>

text \<open>
  \<^verbatim>\<open>groupByDifficulty\<close> collects the groups in a plain object that starts as \<^verbatim>\<open>{}\<close>, with
  the labels as property keys. The object's own properties are a finite map. A lookup
  \<^verbatim>\<open>acc[k]\<close> of a key that is not an own property continues in \<^verbatim>\<open>Object.prototype\<close>,
  which has the twelve properties named below; their values are functions, and for
  \<^verbatim>\<open>__proto__\<close> the prototype object itself. All of them are truthy, and none of them
  has a method \<^verbatim>\<open>push\<close> or \<^verbatim>\<open>slice\<close>, so calling one of these on them throws a
  TypeError.
\<close>

datatype js_error = TypeError

definition inherited_names :: "string list" where
  "inherited_names =
     [''constructor'', ''__proto__'', ''hasOwnProperty'', ''isPrototypeOf'',
      ''propertyIsEnumerable'', ''toLocaleString'', ''toString'', ''valueOf'',
      ''__defineGetter__'', ''__defineSetter__'', ''__lookupGetter__'', ''__lookupSetter__'']"

subsection \<open>groupByDifficulty\<close>

text \<open>
  \<^verbatim>\<open>
  function groupByDifficulty(pool) {
    return pool.reduce((acc, q) => {
      if (!acc[q.difficulty]) acc[q.difficulty] = [];
      acc[q.difficulty].push(q);
      return acc;
    }, {});
  }
  \<close>
  One round of the reduction, by the three cases of the lookup \<^verbatim>\<open>acc[q.difficulty]\<close>.
  An own property holds an array, which is truthy also when empty: the question is
  pushed. An inherited property is truthy as well, so no array is stored, and the call of
  \<^verbatim>\<open>push\<close> throws. Otherwise the lookup gives \<^verbatim>\<open>undefined\<close>: the group is created empty and
  the question is pushed.
\<close>

definition group_step ::
  "(string \<rightharpoonup> 'v question list) \<Rightarrow> 'v question \<Rightarrow> js_error + (string \<rightharpoonup> 'v question list)" where
  "group_step acc q =
     (case acc (difficulty q) of
        Some g \<Rightarrow> Inr (acc(difficulty q \<mapsto> g @ [q]))
      | None \<Rightarrow>
          if difficulty q \<in> set inherited_names then Inl TypeError
          else Inr (acc(difficulty q \<mapsto> [] @ [q])))"

fun group_reduce ::
  "(string \<rightharpoonup> 'v question list) \<Rightarrow> 'v question list \<Rightarrow> js_error + (string \<rightharpoonup> 'v question list)" where
  "group_reduce acc [] = Inr acc"
| "group_reduce acc (q # pool) =
     (case group_step acc q of
        Inl e \<Rightarrow> Inl e
      | Inr acc' \<Rightarrow> group_reduce acc' pool)"

definition groupByDifficulty :: "'v question list \<Rightarrow> js_error + (string \<rightharpoonup> 'v question list)" where
  "groupByDifficulty pool = group_reduce Map.empty pool"

subsection \<open>buildDailySet\<close>

text \<open>
  \<^verbatim>\<open>
  const counts = { Easy: 4, Medium: 5, Hard: 21 };
  const grouped = groupByDifficulty(pool);
  const pickFromGroup = (groupName, n, seed) => {
    const arr = grouped[groupName] ? grouped[groupName].slice() : [];
    const shuffled = seededShuffle(arr, `${seed}-${groupName}`);
    return shuffled.slice(0, n);
  };
  \<close>
  The closure \<^verbatim>\<open>pickFromGroup\<close> reads \<^verbatim>\<open>grouped\<close> from its environment; the model
  passes it as an argument. The lookup \<^verbatim>\<open>grouped[groupName]\<close> has the same three cases as
  above: the copy of an own group, a TypeError from \<^verbatim>\<open>slice\<close> on an inherited property,
  and the empty array for \<^verbatim>\<open>undefined\<close>.
\<close>

definition counts_Easy :: nat where "counts_Easy = 4"

definition counts_Medium :: nat where "counts_Medium = 5"

definition counts_Hard :: nat where "counts_Hard = 21"

definition pickFromGroup ::
  "seedrandom \<Rightarrow> (string \<rightharpoonup> 'v question list) \<Rightarrow> string \<Rightarrow> nat \<Rightarrow> string
     \<Rightarrow> js_error + 'v question list" where
  "pickFromGroup sr grouped groupName n seed =
     (case (case grouped groupName of
              Some g \<Rightarrow> Inr g
            | None \<Rightarrow> if groupName \<in> set inherited_names then Inl TypeError else Inr [])
      of Inl e \<Rightarrow> Inl e
       | Inr arr \<Rightarrow>
           let shuffled = seededShuffle sr arr (seed @ ''-'' @ groupName)
           in Inr (take n shuffled))"

text \<open>
  \<^verbatim>\<open>
  const result = [];
  const daySeed = String(dateSeed);
  result.push(...pickFromGroup('Easy', counts.Easy, daySeed));
  result.push(...pickFromGroup('Medium', counts.Medium, daySeed));
  result.push(...pickFromGroup('Hard', counts.Hard, daySeed));
  \<close>
  \<open>pulled\<close> is the value of \<^verbatim>\<open>result\<close> after these three pushes (line 82), before the
  filler step.
\<close>

definition pulled ::
  "seedrandom \<Rightarrow> (string \<rightharpoonup> 'v question list) \<Rightarrow> string \<Rightarrow> js_error + 'v question list" where
  "pulled sr grouped daySeed =
     (case pickFromGroup sr grouped ''Easy'' counts_Easy daySeed of
        Inl e \<Rightarrow> Inl e
      | Inr easy \<Rightarrow>
     (case pickFromGroup sr grouped ''Medium'' counts_Medium daySeed of
        Inl e \<Rightarrow> Inl e
      | Inr medium \<Rightarrow>
     (case pickFromGroup sr grouped ''Hard'' counts_Hard daySeed of
        Inl e \<Rightarrow> Inl e
      | Inr hard \<Rightarrow> Inr (easy @ medium @ hard))))"

text \<open>
  \<^verbatim>\<open>
  if (result.length < 30) {
    const needed = 30 - result.length;
    const remainingPool = pool.filter(q => !result.some(r => r.id === q.id));
    const filler = seededShuffle(remainingPool, `${daySeed}-filler`).slice(0, needed);
    result.push(...filler);
  } else if (result.length > 30) {
    result.splice(30);
  }
  return result;
  \<close>
  The seed is a string already, so \<^verbatim>\<open>String(dateSeed)\<close> is the identity.
\<close>

definition remainingPool :: "'v question list \<Rightarrow> 'v question list \<Rightarrow> 'v question list" where
  "remainingPool pool result = filter (\<lambda>q. \<not> list_ex (\<lambda>r. strict_eq (qid r) (qid q)) result) pool"

definition buildDailySet ::
  "seedrandom \<Rightarrow> 'v question list \<Rightarrow> string \<Rightarrow> js_error + 'v question list" where
  "buildDailySet sr pool dateSeed =
     (case groupByDifficulty pool of
        Inl e \<Rightarrow> Inl e
      | Inr grouped \<Rightarrow>
          let daySeed = dateSeed
          in case pulled sr grouped daySeed of
               Inl e \<Rightarrow> Inl e
             | Inr result \<Rightarrow>
                 if length result < 30 then
                   let needed = 30 - length result;
                       filler = take needed
                          (seededShuffle sr (remainingPool pool result) (daySeed @ ''-filler''))
                   in Inr (result @ filler)
                 else if length result > 30 then Inr (take 30 result)
                 else Inr result)"

subsection \<open>Notions for the statements, and sample inputs\<close>

definition ordinary_labels :: "'v question list \<Rightarrow> bool" where
  \<comment> \<open>no difficulty label of the pool is the name of an inherited property\<close>
  "ordinary_labels pool = list_all (\<lambda>q. difficulty q \<notin> set inherited_names) pool"

definition count_label :: "'v question list \<Rightarrow> string \<Rightarrow> nat" where
  \<comment> \<open>the number of questions of the pool that carry the label\<close>
  "count_label pool d = length (filter (\<lambda>q. difficulty q = d) pool)"

definition group_of :: "(string \<rightharpoonup> 'v question list) \<Rightarrow> string \<Rightarrow> 'v question list" where
  \<comment> \<open>the own group of a label, empty if there is none\<close>
  "group_of grouped d = (case grouped d of Some g \<Rightarrow> g | None \<Rightarrow> [])"

definition block ::
  "seedrandom \<Rightarrow> (string \<rightharpoonup> 'v question list) \<Rightarrow> string \<Rightarrow> nat \<Rightarrow> string \<Rightarrow> 'v question list" where
  \<comment> \<open>the list that \<^verbatim>\<open>pickFromGroup\<close> returns when it returns\<close>
  "block sr grouped groupName n seed
     = take n (seededShuffle sr (group_of grouped groupName) (seed @ ''-'' @ groupName))"

definition blocks ::
  "seedrandom \<Rightarrow> (string \<rightharpoonup> 'v question list) \<Rightarrow> string \<Rightarrow> 'v question list" where
  \<comment> \<open>the Easy, Medium and Hard block in this order\<close>
  "blocks sr grouped daySeed
     = block sr grouped ''Easy'' 4 daySeed @ block sr grouped ''Medium'' 5 daySeed
       @ block sr grouped ''Hard'' 21 daySeed"

definition mk_question :: "nat \<Rightarrow> string \<Rightarrow> nat question" where
  "mk_question i d = \<lparr>qid = Val i, qtext = ''?'', options = [], correct = ''A'', difficulty = d\<rparr>"

definition nan_question :: "nat question" where
  \<comment> \<open>\<^verbatim>\<open>{ id: NaN, difficulty: 'Easy' }\<close>\<close>
  "nan_question = \<lparr>qid = NaN, qtext = ''?'', options = [], correct = ''A'', difficulty = ''Easy''\<rparr>"

definition sample_pool :: "nat question list" where
  \<comment> \<open>4 Easy, 5 Medium and 25 Hard questions\<close>
  "sample_pool = map (\<lambda>i. mk_question i ''Easy'') [0..<4] @ map (\<lambda>i. mk_question i ''Medium'') [4..<9]
     @ map (\<lambda>i. mk_question i ''Hard'') [9..<34]"

definition short_easy_pool :: "nat question list" where
  \<comment> \<open>2 Easy, 5 Medium and 30 Hard questions\<close>
  "short_easy_pool = map (\<lambda>i. mk_question i ''Easy'') [0..<2] @ map (\<lambda>i. mk_question i ''Medium'') [2..<7]
     @ map (\<lambda>i. mk_question i ''Hard'') [7..<37]"

definition small_pool :: "nat question list" where
  "small_pool = [mk_question 0 ''Easy'', mk_question 1 ''Medium'', mk_question 2 ''Bonus'']"

definition sample_sr :: seedrandom where
  "sample_sr seed k = draw_of_ratio (k mod 3) 3"

definition other_sr :: seedrandom where
  "other_sr seed k = (if seed = ''elsewhere'' then draw_of_ratio 0 1 else sample_sr seed k)"

subsection \<open>Facts about the shuffle\<close>

lemma floor_scaled_less: "0 < n \<Longrightarrow> floor_scaled u n < n"
proof -
  assume n: "0 < n"
  have r: "0 \<le> Rep_draw u" "Rep_draw u < 1"
    using Rep_draw [of u] by auto
  have "Rep_draw u * real n < 1 * real n"
    using r n by (intro mult_strict_right_mono) auto
  then have "\<lfloor>Rep_draw u * real n\<rfloor> < int n"
    by (simp add: floor_less_iff)
  moreover have "0 \<le> \<lfloor>Rep_draw u * real n\<rfloor>"
    using r by simp
  ultimately show ?thesis
    unfolding floor_scaled_def by linarith
qed

lemma mset_swap_cells:
  "i < length arr \<Longrightarrow> j < length arr \<Longrightarrow> mset (arr[i := arr ! j, j := arr ! i]) = mset arr"
  by (simp add: mset_swap)

lemma mset_shuffle_loop: "i < length arr \<Longrightarrow> mset (shuffle_loop rng k i arr) = mset arr"
proof (induction i arbitrary: k arr)
  case 0
  show ?case by simp
next
  case (Suc i')
  then have len: "Suc i' < length arr" by simp
  let ?j = "floor_scaled (rng k) (Suc i' + 1)"
  have j: "?j < Suc i' + 1" by (rule floor_scaled_less) simp
  let ?arr = "arr[Suc i' := arr ! ?j, ?j := arr ! Suc i']"
  have "mset (shuffle_loop rng (Suc k) i' ?arr) = mset ?arr"
    using len by (intro Suc.IH) simp
  also have "\<dots> = mset arr"
    using len j by (intro mset_swap_cells) auto
  finally show ?case by (simp add: Let_def)
qed

lemma mset_seededShuffle: "mset (seededShuffle sr S seed) = mset S"
proof (cases S)
  case Nil
  then show ?thesis by (simp add: seededShuffle_def)
next
  case (Cons x xs)
  then show ?thesis
    unfolding seededShuffle_def Let_def by (intro mset_shuffle_loop) simp
qed

lemma length_seededShuffle: "length (seededShuffle sr S seed) = length S"
  using mset_seededShuffle [of sr S seed] by (metis size_mset)

lemma set_seededShuffle: "set (seededShuffle sr S seed) = set S"
  using mset_seededShuffle [of sr S seed] by (metis set_mset_mset)

text \<open>The loop reads the generator at the positions \<open>k, \<dots>, k + i - 1\<close> only.\<close>

lemma shuffle_loop_cong:
  "(\<forall>n < i. rng (k + n) = rng' (k + n)) \<Longrightarrow> shuffle_loop rng k i arr = shuffle_loop rng' k i arr"
proof (induction i arbitrary: k arr)
  case 0
  show ?case by simp
next
  case (Suc i')
  have here: "rng k = rng' k"
    using Suc.prems by (metis add.right_neutral zero_less_Suc)
  have "\<forall>n < i'. rng (Suc k + n) = rng' (Suc k + n)"
  proof (intro allI impI)
    fix n assume "n < i'"
    then have "Suc n < Suc i'" by simp
    with Suc.prems have "rng (k + Suc n) = rng' (k + Suc n)" by blast
    then show "rng (Suc k + n) = rng' (Suc k + n)" by simp
  qed
  then have "shuffle_loop rng (Suc k) i' a = shuffle_loop rng' (Suc k) i' a" for a :: "'a list"
    by (rule Suc.IH)
  then show ?case by (simp add: here Let_def)
qed

lemma seededShuffle_cong:
  "(\<forall>k < length S - 1. sr seed k = sr' seed k) \<Longrightarrow> seededShuffle sr S seed = seededShuffle sr' S seed"
  unfolding seededShuffle_def Let_def by (rule shuffle_loop_cong) simp

lemma shuffle_example: "seededShuffle sample_sr [1, 2, 3 :: nat] ''seedA'' = [2, 3, 1]"
  by (simp add: seededShuffle_def sample_sr_def floor_scaled_def draw_of_ratio.rep_eq Let_def
      numeral_2_eq_2)

subsection \<open>Facts about the groups and the quota blocks\<close>

lemma quota_names_ordinary [simp]:
  "''Easy'' \<notin> set inherited_names" "''Medium'' \<notin> set inherited_names"
  "''Hard'' \<notin> set inherited_names" "''Bonus'' \<notin> set inherited_names"
  by (simp_all add: inherited_names_def)

lemma group_step_Inr:
  assumes "group_step acc q = Inr acc'"
  shows "group_of acc' d = group_of acc d @ (if difficulty q = d then [q] else [])"
  using assms by (auto simp: group_step_def group_of_def split: option.splits if_splits)

lemma group_reduce_Inr:
  "group_reduce acc pool = Inr grouped
     \<Longrightarrow> group_of grouped d = group_of acc d @ filter (\<lambda>q. difficulty q = d) pool"
proof (induction pool arbitrary: acc)
  case Nil
  then show ?case by simp
next
  case (Cons q pool)
  from Cons.prems obtain acc' where step: "group_step acc q = Inr acc'"
    and rest: "group_reduce acc' pool = Inr grouped"
    by (auto split: sum.splits)
  have "group_of grouped d = group_of acc' d @ filter (\<lambda>q. difficulty q = d) pool"
    using rest by (rule Cons.IH)
  then show ?case
    using group_step_Inr [OF step, of d] by simp
qed

lemma groupByDifficulty_groups:
  "groupByDifficulty pool = Inr grouped \<Longrightarrow> group_of grouped d = filter (\<lambda>q. difficulty q = d) pool"
  using group_reduce_Inr [of Map.empty pool grouped d]
  by (simp add: groupByDifficulty_def group_of_def)

lemma group_reduce_None:
  "group_reduce acc pool = Inr grouped
     \<Longrightarrow> grouped d = None \<longleftrightarrow> acc d = None \<and> (\<forall>q \<in> set pool. difficulty q \<noteq> d)"
proof (induction pool arbitrary: acc)
  case Nil
  then show ?case by simp
next
  case (Cons q pool)
  from Cons.prems obtain acc' where step: "group_step acc q = Inr acc'"
    and rest: "group_reduce acc' pool = Inr grouped"
    by (auto split: sum.splits)
  have "acc' d = None \<longleftrightarrow> acc d = None \<and> difficulty q \<noteq> d"
    using step by (auto simp: group_step_def split: option.splits if_splits)
  then show ?case
    using Cons.IH [OF rest] by auto
qed

lemma group_reduce_total:
  "ordinary_labels pool \<Longrightarrow> \<exists>grouped. group_reduce acc pool = Inr grouped"
proof (induction pool arbitrary: acc)
  case Nil
  show ?case by simp
next
  case (Cons q pool)
  then have q: "difficulty q \<notin> set inherited_names" and pool: "ordinary_labels pool"
    by (simp_all add: ordinary_labels_def)
  from q obtain acc' where "group_step acc q = Inr acc'"
    by (cases "acc (difficulty q)") (auto simp: group_step_def)
  then show ?case
    using Cons.IH [OF pool, of acc'] by simp
qed

lemma groupByDifficulty_total:
  "ordinary_labels pool \<Longrightarrow> \<exists>grouped. groupByDifficulty pool = Inr grouped"
  unfolding groupByDifficulty_def by (rule group_reduce_total)

lemma pickFromGroup_block:
  "groupName \<notin> set inherited_names
     \<Longrightarrow> pickFromGroup sr grouped groupName n seed = Inr (block sr grouped groupName n seed)"
  by (simp add: pickFromGroup_def block_def group_of_def Let_def split: option.splits)

lemma pulled_blocks: "pulled sr grouped s = Inr (blocks sr grouped s)"
  by (simp add: pulled_def blocks_def pickFromGroup_block counts_Easy_def counts_Medium_def
      counts_Hard_def)

lemma length_block_le: "length (block sr grouped d n s) \<le> n"
  by (simp add: block_def)

lemma set_block:
  assumes "groupByDifficulty pool = Inr grouped"
  shows "set (block sr grouped d n s) \<subseteq> {q \<in> set pool. difficulty q = d}"
proof -
  have "set (block sr grouped d n s) \<subseteq> set (seededShuffle sr (group_of grouped d) (s @ ''-'' @ d))"
    unfolding block_def by (rule set_take_subset)
  then show ?thesis
    by (auto simp: set_seededShuffle groupByDifficulty_groups [OF assms])
qed

lemma length_block:
  assumes "groupByDifficulty pool = Inr grouped"
  shows "length (block sr grouped d n s) = min n (count_label pool d)"
  by (simp add: block_def length_seededShuffle groupByDifficulty_groups [OF assms] count_label_def
      min.commute)

lemma distinct_map_filter_qid:
  "distinct (map qid pool) \<Longrightarrow> distinct (map qid (filter P pool))"
  by (simp add: distinct_map_filter)

lemma distinct_block:
  assumes "groupByDifficulty pool = Inr grouped" and "distinct (map qid pool)"
  shows "distinct (map qid (block sr grouped d n s))"
proof -
  let ?g = "filter (\<lambda>q. difficulty q = d) pool"
  let ?s = "seededShuffle sr ?g (s @ ''-'' @ d)"
  have "mset (map qid ?s) = mset (map qid ?g)"
    by (simp add: mset_seededShuffle)
  moreover have "distinct (map qid ?g)"
    using assms(2) by (rule distinct_map_filter_qid)
  ultimately have "distinct (map qid ?s)"
    by (metis mset_eq_imp_distinct_iff)
  then have "distinct (take n (map qid ?s))"
    by (rule distinct_take)
  then show ?thesis
    by (simp add: block_def groupByDifficulty_groups [OF assms(1)] take_map)
qed

lemma map_difficulty_block:
  assumes "groupByDifficulty pool = Inr grouped" and "n \<le> count_label pool d"
  shows "map difficulty (block sr grouped d n s) = replicate n d"
proof -
  let ?p = "block sr grouped d n s"
  have "length ?p = n"
    using assms(2) by (simp add: length_block [OF assms(1)])
  moreover have "\<forall>q \<in> set ?p. difficulty q = d"
    using set_block [OF assms(1), of sr d n s] by auto
  ultimately show ?thesis
    by (simp add: map_replicate_const cong: map_cong)
qed

lemma block_absent:
  assumes "groupByDifficulty pool = Inr grouped" and "count_label pool d = 0"
  shows "grouped d = None" and "block sr grouped d n s = []"
proof -
  have "filter (\<lambda>q. difficulty q = d) pool = []"
    using assms(2) by (simp add: count_label_def)
  then have none: "\<forall>q \<in> set pool. difficulty q \<noteq> d"
    by (simp add: filter_empty_conv)
  show "grouped d = None"
    using assms(1) none group_reduce_None [of Map.empty pool grouped d]
    by (simp add: groupByDifficulty_def)
  then show "block sr grouped d n s = []"
    by (simp add: block_def group_of_def seededShuffle_def)
qed

lemma pickFromGroup_cong:
  assumes "sr (seed @ ''-'' @ d) = sr' (seed @ ''-'' @ d)"
  shows "pickFromGroup sr grouped d n seed = pickFromGroup sr' grouped d n seed"
proof -
  have "seededShuffle sr A (seed @ ''-'' @ d) = seededShuffle sr' A (seed @ ''-'' @ d)"
    for A :: "'a question list"
    using assms by (intro seededShuffle_cong) simp
  then show ?thesis
    by (simp add: pickFromGroup_def Let_def split: option.splits)
qed

lemma length_blocks:
  assumes "groupByDifficulty pool = Inr grouped"
  shows "length (blocks sr grouped s)
     = min 4 (count_label pool ''Easy'') + min 5 (count_label pool ''Medium'')
       + min 21 (count_label pool ''Hard'')"
  by (simp add: blocks_def length_block [OF assms])

lemma length_blocks_le: "length (blocks sr grouped s) \<le> 30"
  using length_block_le [of sr grouped "''Easy''" 4 s] length_block_le [of sr grouped "''Medium''" 5 s]
    length_block_le [of sr grouped "''Hard''" 21 s]
  by (simp add: blocks_def)

lemma set_blocks:
  assumes "groupByDifficulty pool = Inr grouped"
  shows "set (blocks sr grouped s)
     \<subseteq> {q \<in> set pool. difficulty q = ''Easy'' \<or> difficulty q = ''Medium'' \<or> difficulty q = ''Hard''}"
  using set_block [OF assms, of sr "''Easy''" 4 s] set_block [OF assms, of sr "''Medium''" 5 s]
    set_block [OF assms, of sr "''Hard''" 21 s]
  by (auto simp: blocks_def)

lemma blocks_subset_pool:
  "groupByDifficulty pool = Inr grouped \<Longrightarrow> set (blocks sr grouped s) \<subseteq> set pool"
  using set_blocks [of pool grouped sr s] by auto

lemma qid_disjoint_block:
  assumes "groupByDifficulty pool = Inr grouped" and "distinct (map qid pool)" and "d \<noteq> e"
  shows "qid ` set (block sr grouped d n s) \<inter> qid ` set (block sr grouped e m s) = {}"
proof -
  have inj: "inj_on qid (set pool)"
    using assms(2) by (simp add: distinct_map)
  show ?thesis
  proof (rule ccontr)
    assume "\<not> ?thesis"
    then obtain q r where q: "q \<in> set (block sr grouped d n s)"
      and r: "r \<in> set (block sr grouped e m s)"
      and eq: "qid q = qid r"
      by auto
    from q set_block [OF assms(1), of sr d n s] have q': "q \<in> set pool" "difficulty q = d" by auto
    from r set_block [OF assms(1), of sr e m s] have r': "r \<in> set pool" "difficulty r = e" by auto
    from inj eq q'(1) r'(1) have "q = r" by (rule inj_onD)
    with q'(2) r'(2) assms(3) show False by simp
  qed
qed

lemma distinct_blocks:
  assumes "groupByDifficulty pool = Inr grouped" and "distinct (map qid pool)"
  shows "distinct (map qid (blocks sr grouped s))"
  using distinct_block [OF assms] qid_disjoint_block [OF assms]
  by (simp add: blocks_def image_Un Int_Un_distrib Int_Un_distrib2)

subsection \<open>Facts about the filler step\<close>

lemma strict_eq_Val: "b \<noteq> NaN \<Longrightarrow> strict_eq a b = (a = b)"
  by (cases a; cases b) auto

lemma remainingPool_eq:
  assumes "NaN \<notin> qid ` set pool"
  shows "remainingPool pool result = filter (\<lambda>q. qid q \<notin> qid ` set result) pool"
  unfolding remainingPool_def list_ex_iff
proof (rule filter_cong [OF refl])
  fix q assume "q \<in> set pool"
  with assms have "qid q \<noteq> NaN" by force
  then show "(\<not> (\<exists>r \<in> set result. strict_eq (qid r) (qid q))) = (qid q \<notin> qid ` set result)"
    by (auto simp: strict_eq_Val image_iff)
qed

text \<open>
  The quota blocks never exceed 30 items, so when the groups exist the three branches
  collapse into one.
\<close>

lemma buildDailySet_eq:
  assumes "groupByDifficulty pool = Inr grouped"
  shows "buildDailySet sr pool s
     = Inr (blocks sr grouped s
            @ take (30 - length (blocks sr grouped s))
                (seededShuffle sr (remainingPool pool (blocks sr grouped s)) (s @ ''-filler'')))"
  using length_blocks_le [of sr grouped s]
  by (simp add: buildDailySet_def assms pulled_blocks Let_def)

lemma buildDailySet_Inr_grouped:
  "buildDailySet sr pool s = Inr r \<Longrightarrow> \<exists>grouped. groupByDifficulty pool = Inr grouped"
  by (cases "groupByDifficulty pool") (simp_all add: buildDailySet_def)

lemma buildDailySet_total:
  "ordinary_labels pool \<Longrightarrow> \<exists>r. buildDailySet sr pool s = Inr r"
  using groupByDifficulty_total [of pool] buildDailySet_eq [of pool _ sr s] by auto

lemma length_filled:
  "length (blocks sr grouped s
           @ take (30 - length (blocks sr grouped s))
               (seededShuffle sr (remainingPool pool (blocks sr grouped s)) (s @ ''-filler'')))
     = min 30 (length (blocks sr grouped s) + length (remainingPool pool (blocks sr grouped s)))"
  using length_blocks_le [of sr grouped s] by (simp add: length_seededShuffle)

lemma distinct_filled:
  assumes "groupByDifficulty pool = Inr grouped" and "distinct (map qid pool)"
    and "NaN \<notin> qid ` set pool"
  shows "distinct (map qid (blocks sr grouped s
           @ take (30 - length (blocks sr grouped s))
               (seededShuffle sr (remainingPool pool (blocks sr grouped s)) (s @ ''-filler''))))"
proof -
  let ?r = "blocks sr grouped s"
  let ?rem = "remainingPool pool ?r"
  let ?sh = "seededShuffle sr ?rem (s @ ''-filler'')"
  let ?f = "take (30 - length ?r) ?sh"
  have "distinct (map qid ?rem)"
    unfolding remainingPool_eq [OF assms(3)] using assms(2) by (rule distinct_map_filter_qid)
  moreover have "mset (map qid ?sh) = mset (map qid ?rem)"
    by (simp add: mset_seededShuffle)
  ultimately have "distinct (map qid ?sh)"
    by (metis mset_eq_imp_distinct_iff)
  then have "distinct (take (30 - length ?r) (map qid ?sh))"
    by (rule distinct_take)
  then have df: "distinct (map qid ?f)"
    by (simp add: take_map)
  have "set ?f \<subseteq> set ?sh"
    by (rule set_take_subset)
  then have "set ?f \<subseteq> set ?rem"
    by (simp add: set_seededShuffle)
  then have "qid ` set ?f \<inter> qid ` set ?r = {}"
    by (auto simp: remainingPool_eq [OF assms(3)])
  with df distinct_blocks [OF assms(1,2), of sr s] show ?thesis
    by (auto simp: Int_commute)
qed

lemma mset_remainingPool:
  assumes "distinct (map qid pool)" and "NaN \<notin> qid ` set pool"
    and "distinct (map qid result)" and "set result \<subseteq> set pool"
  shows "mset result + mset (remainingPool pool result) = mset pool"
proof -
  have inj: "inj_on qid (set pool)" and dp: "distinct pool"
    using assms(1) by (simp_all add: distinct_map)
  have dr: "distinct result"
    using assms(3) by (simp add: distinct_map)
  have rem: "remainingPool pool result = filter (\<lambda>q. q \<notin> set result) pool"
    unfolding remainingPool_eq [OF assms(2)]
  proof (rule filter_cong [OF refl])
    fix q assume q: "q \<in> set pool"
    show "(qid q \<notin> qid ` set result) = (q \<notin> set result)"
      using inj q assms(4) by (auto dest: inj_onD)
  qed
  have sel: "mset result = mset (filter (\<lambda>q. q \<in> set result) pool)"
    using dp dr assms(4) by (intro iffD1 [OF set_eq_iff_mset_eq_distinct]) auto
  have part: "mset (filter P pool) + mset (filter (\<lambda>q. \<not> P q) pool) = mset pool"
    for P :: "'a question \<Rightarrow> bool"
    unfolding mset_filter by (rule multiset_partition [symmetric])
  show ?thesis
    unfolding rem by (subst sel) (rule part)
qed

lemma mset_blocks_remaining:
  assumes "groupByDifficulty pool = Inr grouped" and "distinct (map qid pool)"
    and "NaN \<notin> qid ` set pool"
  shows "mset (blocks sr grouped s) + mset (remainingPool pool (blocks sr grouped s)) = mset pool"
  using assms(2,3) distinct_blocks [OF assms(1,2)] blocks_subset_pool [OF assms(1)]
  by (rule mset_remainingPool)

lemma length_blocks_remaining:
  assumes "groupByDifficulty pool = Inr grouped" and "distinct (map qid pool)"
    and "NaN \<notin> qid ` set pool"
  shows "length (blocks sr grouped s) + length (remainingPool pool (blocks sr grouped s)) = length pool"
proof -
  have "size (mset (blocks sr grouped s) + mset (remainingPool pool (blocks sr grouped s)))
          = size (mset pool)"
    using mset_blocks_remaining [OF assms, of sr s] by simp
  then show ?thesis by simp
qed

subsection \<open>Facts about the sample inputs\<close>

lemma mk_question_sel [simp]: "qid (mk_question i d) = Val i" "difficulty (mk_question i d) = d"
  by (simp_all add: mk_question_def)

lemma count_label_append [simp]: "count_label (xs @ ys) d = count_label xs d + count_label ys d"
  by (simp add: count_label_def)

lemma count_label_mk [simp]:
  "count_label (map (\<lambda>i. mk_question i e) js) d = (if e = d then length js else 0)"
  by (simp add: count_label_def filter_map comp_def)

lemma count_label_Cons [simp]:
  "count_label (q # qs) d = (if difficulty q = d then 1 else 0) + count_label qs d"
  by (simp add: count_label_def)

lemma count_label_Nil [simp]: "count_label [] d = 0"
  by (simp add: count_label_def)

lemma ordinary_labels_append [simp]:
  "ordinary_labels (xs @ ys) = (ordinary_labels xs \<and> ordinary_labels ys)"
  by (simp add: ordinary_labels_def)

lemma ordinary_labels_Cons [simp]:
  "ordinary_labels (q # qs) = (difficulty q \<notin> set inherited_names \<and> ordinary_labels qs)"
  by (simp add: ordinary_labels_def)

lemma ordinary_labels_Nil [simp]: "ordinary_labels []"
  by (simp add: ordinary_labels_def)

lemma ordinary_labels_mk [simp]:
  "d \<notin> set inherited_names \<Longrightarrow> ordinary_labels (map (\<lambda>i. mk_question i d) js)"
  by (simp add: ordinary_labels_def list_all_iff)

lemma sample_pool_ids: "distinct (map qid sample_pool)" "NaN \<notin> qid ` set sample_pool"
  by (auto simp: sample_pool_def comp_def distinct_map inj_on_def)

lemma sample_pool_labels: "ordinary_labels sample_pool"
  by (simp add: sample_pool_def)

lemma sample_pool_counts:
  "count_label sample_pool ''Easy'' = 4" "count_label sample_pool ''Medium'' = 5"
  "count_label sample_pool ''Hard'' = 25"
  by (simp_all add: sample_pool_def)

lemma short_easy_pool_ids: "distinct (map qid short_easy_pool)" "NaN \<notin> qid ` set short_easy_pool"
  by (auto simp: short_easy_pool_def comp_def distinct_map inj_on_def)

lemma short_easy_pool_labels: "ordinary_labels short_easy_pool"
  by (simp add: short_easy_pool_def)

lemma short_easy_pool_counts:
  "count_label short_easy_pool ''Easy'' = 2" "count_label short_easy_pool ''Medium'' = 5"
  "count_label short_easy_pool ''Hard'' = 30" "length short_easy_pool = 37"
  by (simp_all add: short_easy_pool_def)

lemma small_pool_ids: "distinct (map qid small_pool)" "NaN \<notin> qid ` set small_pool"
  by (auto simp: small_pool_def)

lemma small_pool_labels: "ordinary_labels small_pool"
  by (simp add: small_pool_def)

lemma small_pool_result:
  "buildDailySet sr small_pool s
     = Inr [mk_question 0 ''Easy'', mk_question 1 ''Medium'', mk_question 2 ''Bonus'']"
  by (simp add: buildDailySet_def pulled_def pickFromGroup_def groupByDifficulty_def group_step_def
      small_pool_def seededShuffle_def remainingPool_def counts_Easy_def counts_Medium_def
      counts_Hard_def Let_def)

lemma nan_pool_result: "buildDailySet sr [nan_question] s = Inr [nan_question, nan_question]"
  by (simp add: buildDailySet_def pulled_def pickFromGroup_def groupByDifficulty_def group_step_def
      nan_question_def seededShuffle_def remainingPool_def counts_Easy_def counts_Medium_def
      counts_Hard_def Let_def)

lemma constructor_pool_result: "buildDailySet sr [mk_question 0 ''constructor''] s = Inl TypeError"
  by (simp add: buildDailySet_def groupByDifficulty_def group_step_def inherited_names_def)

text \<open>
  Whenever the grouping returns, the quota blocks hold questions of the three quota
  labels only, a question with another label lies in the filler, and a label that no
  question carries has no group and an empty block.
\<close>

lemma quota_blocks_labels:
  assumes "groupByDifficulty pool = Inr grouped" and "buildDailySet sr pool daySeed = Inr r"
  shows "\<forall>q \<in> set (blocks sr grouped daySeed). difficulty q \<in> {''Easy'', ''Medium'', ''Hard''}"
    and "take (length (blocks sr grouped daySeed)) r = blocks sr grouped daySeed"
    and "q \<in> set r \<Longrightarrow> difficulty q \<notin> {''Easy'', ''Medium'', ''Hard''}
           \<Longrightarrow> q \<in> set (drop (length (blocks sr grouped daySeed)) r)"
    and "count_label pool d = 0
           \<Longrightarrow> grouped d = None \<and> block sr grouped d n daySeed = []"
proof -
  show a: "\<forall>q \<in> set (blocks sr grouped daySeed). difficulty q \<in> {''Easy'', ''Medium'', ''Hard''}"
    using set_blocks [OF assms(1), of sr daySeed] by auto
  have r: "r = blocks sr grouped daySeed
               @ take (30 - length (blocks sr grouped daySeed))
                   (seededShuffle sr (remainingPool pool (blocks sr grouped daySeed))
                      (daySeed @ ''-filler''))"
    using assms(2) by (simp add: buildDailySet_eq [OF assms(1)])
  show "take (length (blocks sr grouped daySeed)) r = blocks sr grouped daySeed"
    by (subst r) simp
  show "q \<in> set (drop (length (blocks sr grouped daySeed)) r)"
    if "q \<in> set r" and "difficulty q \<notin> {''Easy'', ''Medium'', ''Hard''}"
    using that a by (subst r, subst (asm) r) auto
  show "grouped d = None \<and> block sr grouped d n daySeed = []" if "count_label pool d = 0"
    using block_absent [OF assms(1) that] by simp
qed

section \<open>The claims\<close>

text \<open>
  C1. For every pool of questions with pairwise distinct ids that holds at least 4 Easy, at
  least 5 Medium and at least 21 Hard questions (so at least 30 questions, spanning the
  three labels), and for every day seed, \<open>buildDailySet\<close> returns a list of exactly 30
  questions whose ids are pairwise distinct. The pools are those on which the grouping
  returns: besides Easy, Medium and Hard they may carry every label that is not the name
  of an inherited property. The ids may be any values, \<open>NaN\<close> included.
\<close>

theorem buildDailySet_exactly_30_unique:
  assumes "distinct (map qid pool)"
    and "4 \<le> count_label pool ''Easy''" and "5 \<le> count_label pool ''Medium''"
    and "21 \<le> count_label pool ''Hard''"
    and "ordinary_labels pool"
  shows "\<exists>r. buildDailySet sr pool daySeed = Inr r \<and> length r = 30 \<and> distinct (map qid r)"
proof -
  from assms(5) obtain grouped where g: "groupByDifficulty pool = Inr grouped"
    using groupByDifficulty_total by blast
  have "length (blocks sr grouped daySeed) = 30"
    using assms(2-4) by (simp add: length_blocks [OF g])
  then have "buildDailySet sr pool daySeed = Inr (blocks sr grouped daySeed)"
    by (simp add: buildDailySet_eq [OF g])
  moreover note \<open>length (blocks sr grouped daySeed) = 30\<close>
  moreover have "distinct (map qid (blocks sr grouped daySeed))"
    using g assms(1) by (rule distinct_blocks)
  ultimately show ?thesis by blast
qed

theorem buildDailySet_exactly_30_unique_witness:
  "distinct (map qid sample_pool)
   \<and> 4 \<le> count_label sample_pool ''Easy'' \<and> 5 \<le> count_label sample_pool ''Medium''
   \<and> 21 \<le> count_label sample_pool ''Hard''
   \<and> ordinary_labels sample_pool
   \<and> (\<exists>r. buildDailySet sample_sr sample_pool ''seedA'' = Inr r
            \<and> length r = 30 \<and> distinct (map qid r))"
  using buildDailySet_exactly_30_unique [of sample_pool sample_sr "''seedA''"]
  by (simp add: sample_pool_ids sample_pool_counts sample_pool_labels)

text \<open>
  C2. For every pool with distinct ids in which the quotas are fully satisfiable (at least
  4 Easy, 5 Medium and 21 Hard questions) and every day seed, the list returned by
  \<open>buildDailySet\<close> is the Easy block of 4, then the Medium block of 5, then the Hard
  block of 21, in this order and not sorted again: its difficulties are 4 times Easy,
  then 5 times Medium, then 21 times Hard. The pools are those on which the grouping
  returns, as for C1.
\<close>

theorem buildDailySet_progression:
  assumes "distinct (map qid pool)"
    and "4 \<le> count_label pool ''Easy''" and "5 \<le> count_label pool ''Medium''"
    and "21 \<le> count_label pool ''Hard''"
    and "ordinary_labels pool"
  shows "\<exists>grouped easy medium hard.
           groupByDifficulty pool = Inr grouped
           \<and> pickFromGroup sr grouped ''Easy'' 4 daySeed = Inr easy
           \<and> pickFromGroup sr grouped ''Medium'' 5 daySeed = Inr medium
           \<and> pickFromGroup sr grouped ''Hard'' 21 daySeed = Inr hard
           \<and> buildDailySet sr pool daySeed = Inr (easy @ medium @ hard)
           \<and> map difficulty (easy @ medium @ hard)
               = replicate 4 ''Easy'' @ replicate 5 ''Medium'' @ replicate 21 ''Hard''"
proof -
  from assms(5) obtain grouped where g: "groupByDifficulty pool = Inr grouped"
    using groupByDifficulty_total by blast
  let ?e = "block sr grouped ''Easy'' 4 daySeed"
  let ?m = "block sr grouped ''Medium'' 5 daySeed"
  let ?h = "block sr grouped ''Hard'' 21 daySeed"
  have "length (blocks sr grouped daySeed) = 30"
    using assms(2-4) by (simp add: length_blocks [OF g])
  then have "buildDailySet sr pool daySeed = Inr (blocks sr grouped daySeed)"
    by (simp add: buildDailySet_eq [OF g])
  then have b: "buildDailySet sr pool daySeed = Inr (?e @ ?m @ ?h)"
    by (simp add: blocks_def)
  have d: "map difficulty (?e @ ?m @ ?h)
             = replicate 4 ''Easy'' @ replicate 5 ''Medium'' @ replicate 21 ''Hard''"
    using assms(2-4) by (simp add: map_difficulty_block [OF g])
  have "pickFromGroup sr grouped ''Easy'' 4 daySeed = Inr ?e"
    and "pickFromGroup sr grouped ''Medium'' 5 daySeed = Inr ?m"
    and "pickFromGroup sr grouped ''Hard'' 21 daySeed = Inr ?h"
    by (simp_all add: pickFromGroup_block)
  with g b d show ?thesis by blast
qed

theorem buildDailySet_progression_witness:
  "distinct (map qid sample_pool)
   \<and> 4 \<le> count_label sample_pool ''Easy'' \<and> 5 \<le> count_label sample_pool ''Medium''
   \<and> 21 \<le> count_label sample_pool ''Hard''
   \<and> ordinary_labels sample_pool
   \<and> (\<exists>r. buildDailySet sample_sr sample_pool ''2024-05-01-1'' = Inr r
            \<and> map difficulty r = replicate 4 ''Easy'' @ replicate 5 ''Medium'' @ replicate 21 ''Hard'')"
proof -
  have c: "4 \<le> count_label sample_pool ''Easy''" "5 \<le> count_label sample_pool ''Medium''"
    "21 \<le> count_label sample_pool ''Hard''"
    by (simp_all add: sample_pool_counts)
  have "\<exists>r. buildDailySet sample_sr sample_pool ''2024-05-01-1'' = Inr r
            \<and> map difficulty r = replicate 4 ''Easy'' @ replicate 5 ''Medium'' @ replicate 21 ''Hard''"
    using buildDailySet_progression
      [OF sample_pool_ids(1) c sample_pool_labels, of sample_sr "''2024-05-01-1''"]
    by blast
  with sample_pool_ids(1) c sample_pool_labels show ?thesis by blast
qed

text \<open>
  C3. For every sequence \<open>S\<close> and every seed string, the output of the seeded shuffle is a
  permutation of \<open>S\<close>: it has the same multiset of elements and the same length as \<open>S\<close>;
  the empty sequence and every single-element sequence are returned unchanged.
\<close>

theorem seededShuffle_permutation:
  "mset (seededShuffle sr S seed) = mset S
   \<and> length (seededShuffle sr S seed) = length S
   \<and> seededShuffle sr [] seed = []
   \<and> seededShuffle sr [x] seed = [x]"
  by (simp add: mset_seededShuffle length_seededShuffle) (simp add: seededShuffle_def)

text \<open>
  C4. The seeded shuffle is deterministic: two calls with the same sequence and the same
  seed return the same list. The result depends on nothing but the sequence and the
  values that the generator built from this seed returns during the call (one per loop
  round): the two calls may see generators that differ for every other seed and after
  these values.
\<close>

theorem seededShuffle_deterministic:
  assumes "S = S'" and "seed = seed'" and "\<forall>k < length S - 1. sr seed k = sr' seed k"
  shows "seededShuffle sr S seed = seededShuffle sr' S' seed'"
  using assms seededShuffle_cong [of S sr seed sr'] by simp

theorem seededShuffle_deterministic_witness:
  "seededShuffle sample_sr [1, 2, 3 :: nat] ''2024-05-01-1''
     = seededShuffle other_sr [1, 2, 3] ''2024-05-01-1''"
  using seededShuffle_deterministic
    [of "[1, 2, 3 :: nat]" "[1, 2, 3]" "''2024-05-01-1''" "''2024-05-01-1''" sample_sr other_sr]
  by (simp add: other_sr_def)

text \<open>
  C5. \<open>buildDailySet\<close> is deterministic: two calls with the same pool and the same day
  seed return the same list, or both throw. The generators of the two calls need to
  agree only for the four seeds that the call derives from the day seed.
\<close>

theorem buildDailySet_deterministic:
  assumes "pool = pool'" and "daySeed = daySeed'"
    and "\<forall>g \<in> set [''Easy'', ''Medium'', ''Hard'', ''filler''].
           sr (daySeed @ ''-'' @ g) = sr' (daySeed @ ''-'' @ g)"
  shows "buildDailySet sr pool daySeed = buildDailySet sr' pool' daySeed'"
proof -
  have "pickFromGroup sr G ''Easy'' n daySeed = pickFromGroup sr' G ''Easy'' n daySeed"
    and "pickFromGroup sr G ''Medium'' n daySeed = pickFromGroup sr' G ''Medium'' n daySeed"
    and "pickFromGroup sr G ''Hard'' n daySeed = pickFromGroup sr' G ''Hard'' n daySeed"
    for G :: "string \<rightharpoonup> 'a question list" and n
    using assms(3) by (auto intro!: pickFromGroup_cong)
  then have p: "pulled sr G daySeed = pulled sr' G daySeed" for G :: "string \<rightharpoonup> 'a question list"
    by (simp add: pulled_def split: sum.splits)
  have "sr (daySeed @ ''-filler'') = sr' (daySeed @ ''-filler'')"
    using assms(3) by simp
  then have "seededShuffle sr R (daySeed @ ''-filler'') = seededShuffle sr' R (daySeed @ ''-filler'')"
    for R :: "'a question list"
    by (intro seededShuffle_cong) simp
  then have "buildDailySet sr pool daySeed = buildDailySet sr' pool daySeed"
    by (simp add: buildDailySet_def Let_def p split: sum.splits)
  with assms(1,2) show ?thesis by simp
qed

theorem buildDailySet_deterministic_witness:
  "buildDailySet sample_sr sample_pool ''2024-05-01-1''
     = buildDailySet other_sr sample_pool ''2024-05-01-1''"
  using buildDailySet_deterministic
    [of sample_pool sample_pool "''2024-05-01-1''" "''2024-05-01-1''" sample_sr other_sr]
  by (simp add: other_sr_def fun_eq_iff)

text \<open>
  C6, as claimed: for every pool with distinct ids, when the quota blocks hold fewer than
  30 items the remainder is the pool without the ids already selected, and the filler
  introduces no duplicate id. This fails for the pool of one Easy question whose id is
  \<open>NaN\<close>: the block is that question, the comparison \<^verbatim>\<open>r.id === q.id\<close> is false for it, so
  it stays in the remainder, and the result holds it twice.
\<close>

theorem buildDailySet_filler_step_counterexample:
  "distinct (map qid [nan_question])
   \<and> groupByDifficulty [nan_question] = Inr [''Easy'' \<mapsto> [nan_question]]
   \<and> pulled sample_sr [''Easy'' \<mapsto> [nan_question]] ''seedA'' = Inr [nan_question]
   \<and> length [nan_question] < 30
   \<and> remainingPool [nan_question] [nan_question] = [nan_question]
   \<and> buildDailySet sample_sr [nan_question] ''seedA'' = Inr [nan_question, nan_question]
   \<and> \<not> distinct (map qid [nan_question, nan_question])"
  by (simp add: nan_pool_result)
    (simp add: pulled_def pickFromGroup_def groupByDifficulty_def group_step_def
      nan_question_def seededShuffle_def remainingPool_def counts_Easy_def counts_Medium_def
      counts_Hard_def Let_def)

text \<open>
  C6, amended: for every pool with pairwise distinct ids none of which is \<open>NaN\<close> and every
  day seed, if the three quota blocks together hold fewer than 30 items,
  \<open>buildDailySet\<close> returns them followed by the front of the shuffled remainder: the
  remainder is the pool without the ids already selected (as a multiset, the pool minus
  the blocks), it is shuffled with the seed \<open>daySeed @ ''-filler''\<close>, and as many of its
  items are appended as are missing to 30, or all of them when it is exhausted first. So
  the result has 30 items, or the whole pool's number if that is smaller, and no id
  twice.
\<close>

theorem buildDailySet_filler_step:
  assumes "distinct (map qid pool)" and "NaN \<notin> qid ` set pool"
    and "groupByDifficulty pool = Inr grouped" and "pulled sr grouped daySeed = Inr result"
    and "length result < 30"
  shows "\<exists>r. buildDailySet sr pool daySeed = Inr r
           \<and> r = result
                 @ take (30 - length result)
                     (seededShuffle sr (filter (\<lambda>q. qid q \<notin> qid ` set result) pool)
                        (daySeed @ ''-filler''))
           \<and> mset (filter (\<lambda>q. qid q \<notin> qid ` set result) pool) = mset pool - mset result
           \<and> length r = min 30 (length pool)
           \<and> distinct (map qid r)"
proof -
  have res: "result = blocks sr grouped daySeed"
    using assms(4) by (simp add: pulled_blocks)
  let ?rem = "remainingPool pool result"
  let ?r = "result @ take (30 - length result) (seededShuffle sr ?rem (daySeed @ ''-filler''))"
  have rem: "?rem = filter (\<lambda>q. qid q \<notin> qid ` set result) pool"
    using assms(2) by (rule remainingPool_eq)
  have b: "buildDailySet sr pool daySeed = Inr ?r"
    unfolding res by (rule buildDailySet_eq [OF assms(3)])
  have "mset result + mset ?rem = mset pool"
    unfolding res using assms(3,1,2) by (rule mset_blocks_remaining)
  then have m: "mset ?rem = mset pool - mset result"
    by (metis add_diff_cancel_left')
  have "length result + length ?rem = length pool"
    unfolding res using assms(3,1,2) by (rule length_blocks_remaining)
  then have l: "length ?r = min 30 (length pool)"
    unfolding res length_filled by simp
  have d: "distinct (map qid ?r)"
    unfolding res using assms(3,1,2) by (rule distinct_filled)
  show ?thesis
    using b m l d unfolding rem by blast
qed

theorem buildDailySet_filler_step_witness:
  "distinct (map qid short_easy_pool) \<and> NaN \<notin> qid ` set short_easy_pool
   \<and> (\<exists>grouped result r.
         groupByDifficulty short_easy_pool = Inr grouped
         \<and> pulled sample_sr grouped ''seedA'' = Inr result
         \<and> length result = 28
         \<and> buildDailySet sample_sr short_easy_pool ''seedA'' = Inr r
         \<and> length r = 30
         \<and> distinct (map qid r))"
proof -
  obtain grouped where g: "groupByDifficulty short_easy_pool = Inr grouped"
    using groupByDifficulty_total [OF short_easy_pool_labels] by blast
  let ?result = "blocks sample_sr grouped ''seedA''"
  have p: "pulled sample_sr grouped ''seedA'' = Inr ?result"
    by (rule pulled_blocks)
  have l: "length ?result = 28"
    by (simp add: length_blocks [OF g] short_easy_pool_counts)
  then have "length ?result < 30"
    by simp
  from buildDailySet_filler_step [OF short_easy_pool_ids g p this]
  obtain r where "buildDailySet sample_sr short_easy_pool ''seedA'' = Inr r"
    and "length r = min 30 (length short_easy_pool)" and "distinct (map qid r)"
    by blast
  then show ?thesis
    using g p l short_easy_pool_ids by (auto simp: short_easy_pool_counts)
qed

text \<open>
  C7, as claimed: for every pool with pairwise distinct ids, no id appears twice in the
  list returned by \<open>buildDailySet\<close>. This fails for the pool of one Easy question whose
  id is \<open>NaN\<close>, which is returned twice.
\<close>

theorem buildDailySet_unique_ids_counterexample:
  "distinct (map qid [nan_question])
   \<and> buildDailySet sample_sr [nan_question] ''2024-05-02-2'' = Inr [nan_question, nan_question]
   \<and> \<not> distinct (map qid [nan_question, nan_question])"
  by (simp add: nan_pool_result)

text \<open>
  C7, amended. Uniqueness invariant: for every pool whose questions have pairwise distinct
  ids none of which is \<open>NaN\<close>, and every day seed, no id appears twice in the list
  returned by \<open>buildDailySet\<close>, whether the quotas are satisfiable or not and whether the
  filler step runs or not.
\<close>

theorem buildDailySet_unique_ids:
  assumes "distinct (map qid pool)" and "NaN \<notin> qid ` set pool"
    and "buildDailySet sr pool daySeed = Inr r"
  shows "distinct (map qid r)"
proof -
  from assms(3) obtain grouped where g: "groupByDifficulty pool = Inr grouped"
    using buildDailySet_Inr_grouped by blast
  show ?thesis
    using assms(3) distinct_filled [OF g assms(1,2), of sr daySeed]
    by (simp add: buildDailySet_eq [OF g])
qed

theorem buildDailySet_unique_ids_witness:
  "distinct (map qid small_pool) \<and> NaN \<notin> qid ` set small_pool
   \<and> buildDailySet sample_sr small_pool ''2024-05-02-2''
       = Inr [mk_question 0 ''Easy'', mk_question 1 ''Medium'', mk_question 2 ''Bonus'']
   \<and> distinct (map qid [mk_question 0 ''Easy'', mk_question 1 ''Medium'', mk_question 2 ''Bonus''])"
  using buildDailySet_unique_ids
      [OF small_pool_ids small_pool_result [of sample_sr "''2024-05-02-2''"]]
    small_pool_ids small_pool_result [of sample_sr "''2024-05-02-2''"]
  by blast

text \<open>
  C8, as claimed: for every pool with distinct ids that holds fewer than 30 questions,
  \<open>buildDailySet\<close> returns, without an error, a list shorter than 30 that contains every
  question of the pool exactly once. This fails for the pool of one Easy question whose
  id is \<open>NaN\<close>, which is returned twice. It also fails for the pool of one question
  whose label is \<^verbatim>\<open>constructor\<close>, where the grouping throws a TypeError.
\<close>

theorem buildDailySet_undersized_pool_counterexample:
  "distinct (map qid [nan_question]) \<and> length [nan_question] < 30
   \<and> buildDailySet sample_sr [nan_question] ''seedA'' = Inr [nan_question, nan_question]
   \<and> mset [nan_question, nan_question] \<noteq> mset [nan_question]
   \<and> distinct (map qid [mk_question 0 ''constructor''])
   \<and> length [mk_question 0 ''constructor''] < 30
   \<and> buildDailySet sample_sr [mk_question 0 ''constructor''] ''seedA'' = Inl TypeError"
  by (simp add: nan_pool_result constructor_pool_result)

text \<open>
  C8, amended: for every pool with pairwise distinct ids none of which is \<open>NaN\<close>, with no
  label that is the name of an inherited property, and with fewer than 30 questions, and
  for every day seed, \<open>buildDailySet\<close> returns without an error a list shorter than 30
  that contains every question of the pool exactly once.
\<close>

theorem buildDailySet_undersized_pool:
  assumes "distinct (map qid pool)" and "NaN \<notin> qid ` set pool"
    and "ordinary_labels pool" and "length pool < 30"
  shows "\<exists>r. buildDailySet sr pool daySeed = Inr r \<and> length r < 30 \<and> mset r = mset pool"
proof -
  from assms(3) obtain grouped where g: "groupByDifficulty pool = Inr grouped"
    using groupByDifficulty_total by blast
  let ?b = "blocks sr grouped daySeed"
  let ?rem = "remainingPool pool ?b"
  let ?r = "?b @ seededShuffle sr ?rem (daySeed @ ''-filler'')"
  have len: "length ?b + length ?rem = length pool"
    using g assms(1,2) by (rule length_blocks_remaining)
  then have b: "buildDailySet sr pool daySeed = Inr ?r"
    unfolding buildDailySet_eq [OF g, of sr daySeed] using assms(4)
    by (simp add: length_seededShuffle)
  have m: "mset ?r = mset pool"
    using mset_blocks_remaining [OF g assms(1,2), of sr daySeed] by (simp add: mset_seededShuffle)
  then have "length ?r = length pool"
    by (metis size_mset)
  with assms(4) have "length ?r < 30" by simp
  with b m show ?thesis by blast
qed

theorem buildDailySet_undersized_pool_witness:
  "distinct (map qid small_pool) \<and> NaN \<notin> qid ` set small_pool
   \<and> ordinary_labels small_pool \<and> length small_pool < 30
   \<and> (\<exists>r. buildDailySet sample_sr small_pool ''seedA'' = Inr r
            \<and> length r < 30 \<and> mset r = mset small_pool)"
proof -
  have l: "length small_pool < 30"
    by (simp add: small_pool_def)
  show ?thesis
    using buildDailySet_undersized_pool [OF small_pool_ids small_pool_labels l, of sample_sr "''seedA''"]
      small_pool_ids small_pool_labels l
    by blast
qed


text \<open>
  C10. For every pool and day seed, the list returned by \<open>buildDailySet\<close> has at most 30
  items. The three quota blocks hold at most 4, 5 and 21 items, whatever the groups are,
  so together they never hold more than 30, and the condition of the truncation branch,
  \<^verbatim>\<open>result.length > 30\<close>, is never true.
\<close>

theorem buildDailySet_at_most_30:
  "pickFromGroup sr grouped ''Easy'' counts_Easy daySeed = Inr (block sr grouped ''Easy'' 4 daySeed)
   \<and> length (block sr grouped ''Easy'' 4 daySeed) \<le> 4
   \<and> pickFromGroup sr grouped ''Medium'' counts_Medium daySeed = Inr (block sr grouped ''Medium'' 5 daySeed)
   \<and> length (block sr grouped ''Medium'' 5 daySeed) \<le> 5
   \<and> pickFromGroup sr grouped ''Hard'' counts_Hard daySeed = Inr (block sr grouped ''Hard'' 21 daySeed)
   \<and> length (block sr grouped ''Hard'' 21 daySeed) \<le> 21
   \<and> pulled sr grouped daySeed = Inr (blocks sr grouped daySeed)
   \<and> \<not> length (blocks sr grouped daySeed) > 30
   \<and> (buildDailySet sr pool daySeed = Inr r \<longrightarrow> length r \<le> 30)"
proof -
  have "length r \<le> 30" if r: "buildDailySet sr pool daySeed = Inr r"
  proof -
    from r obtain G where g: "groupByDifficulty pool = Inr G"
      using buildDailySet_Inr_grouped by blast
    show ?thesis
      using r length_filled [of sr G daySeed pool] by (simp add: buildDailySet_eq [OF g])
  qed
  then show ?thesis
    using length_blocks_le [of sr grouped daySeed]
    by (simp add: pickFromGroup_block pulled_blocks length_block_le counts_Easy_def
        counts_Medium_def counts_Hard_def)
qed

theorem buildDailySet_at_most_30_witness:
  "buildDailySet sample_sr small_pool ''seedA''
     = Inr [mk_question 0 ''Easy'', mk_question 1 ''Medium'', mk_question 2 ''Bonus'']
   \<and> length [mk_question 0 ''Easy'', mk_question 1 ''Medium'', mk_question 2 ''Bonus''] \<le> 30"
  using buildDailySet_at_most_30
    [of sample_sr Map.empty "''seedA''" small_pool
      "[mk_question 0 ''Easy'', mk_question 1 ''Medium'', mk_question 2 ''Bonus'']"]
    small_pool_result [of sample_sr "''seedA''"]
  by blast

end
